theory Spec2Isabelle
  imports Main "HOL-Library.Word"
begin

unbundle bit_operations_syntax

section \<open>Common types\<close>

type_synonym u8 = "8 word"
type_synonym u64 = "64 word"

text \<open>Go's \<open>[]byte\<close>; a Go \<open>string\<close> is the HOL \<open>string\<close> (a list of 8-bit characters).\<close>

type_synonym bytes = "u8 list"

text \<open>
  Every panic and every error return of the sources below is a value of this type.
\<close>

datatype error =
    ErrorOutOfGas string        \<comment> \<open>\<open>panic(sdk.ErrorOutOfGas{Descriptor: ...})\<close>\<close>
  | IntOverflow                 \<comment> \<open>\<open>sdk.Int\<close> arithmetic beyond 255 bits panics\<close>
  | DivideByZero                \<comment> \<open>Go's run-time panic on integer division by zero\<close>
  | ErrInvalid                  \<comment> \<open>\<open>types.ErrInvalid\<close>\<close>
  | CorruptInputError           \<comment> \<open>\<open>base64.CorruptInputError\<close> (its byte offset is left out)\<close>
  | Wrapf error string          \<comment> \<open>\<open>sdkerrors.Wrapf(err, text)\<close>\<close>
  | CapabilityConflict          \<comment> \<open>the capability authority refused a bind or a claim\<close>
  | IndexOutOfRange             \<comment> \<open>Go's run-time panic on a slice read out of range\<close>
  | Unsupported string          \<comment> \<open>\<open>panic(fmt.Sprintf("unsupported: %q", s))\<close>\<close>
  | TestFatal string            \<comment> \<open>\<open>require.NoError\<close> and \<open>t.Fatalf\<close> of the mock contract\<close>
  | JsonError string            \<comment> \<open>an error of \<open>json.Unmarshal\<close>, with its message\<close>

section \<open>Gas register (x/wasm/keeper/gas\_register.go)\<close>

text \<open>
  \<open>sdk.Gas\<close> and \<open>storetypes.Gas\<close> are \<open>uint64\<close>. The free tier is a Go \<open>int\<close>: a 64-bit
  word read as two's complement (\<open>sint\<close>, \<open>\<le>s\<close>).
\<close>

record GasRegister =
  instanceCost :: u64
  compileCost :: u64
  gasMultiplier :: u64
  eventPerAttributeCost :: u64
  eventAttributeDataCost :: u64
  eventAttributeDataFreeTier :: u64

definition DefaultGasMultiplier :: u64 where "DefaultGasMultiplier = 100"
definition DefaultInstanceCost :: u64 where "DefaultInstanceCost = 40000"
definition DefaultCompileCost :: u64 where "DefaultCompileCost = 2"
definition DefaultEventAttributeDataCost :: u64 where "DefaultEventAttributeDataCost = 1"
definition DefaultPerAttributeCost :: u64 where "DefaultPerAttributeCost = 10"
definition DefaultEventAttributeDataFreeTier :: u64 where "DefaultEventAttributeDataFreeTier = 100"

definition DefaultGasRegister :: GasRegister where
  "DefaultGasRegister =
     \<lparr> instanceCost = DefaultInstanceCost,
       compileCost = DefaultCompileCost,
       gasMultiplier = DefaultGasMultiplier,
       eventPerAttributeCost = DefaultPerAttributeCost,
       eventAttributeDataCost = DefaultEventAttributeDataCost,
       eventAttributeDataFreeTier = DefaultEventAttributeDataFreeTier \<rparr>"

definition NewGasRegister :: "u64 \<Rightarrow> u64 \<Rightarrow> u64 \<Rightarrow> u64 \<Rightarrow> u64 \<Rightarrow> u64 \<Rightarrow> GasRegister" where
  "NewGasRegister instanceCost' compileCost' gasMultiplier' eventAttributeCountCost
       eventAttributeLengthCost freeTierAttributeData =
     \<lparr> instanceCost = instanceCost',
       compileCost = compileCost',
       gasMultiplier = gasMultiplier',
       eventPerAttributeCost = eventAttributeCountCost,
       eventAttributeDataCost = eventAttributeLengthCost,
       eventAttributeDataFreeTier = freeTierAttributeData \<rparr>"

text \<open>\<open>wasmvmtypes.EventAttribute\<close>.\<close>

record EventAttribute =
  Key :: string
  Value :: string

text \<open>
  \<open>sdk.Int\<close> wraps a big integer and panics with "Int overflow" once a result needs more
  than 255 bits. \<open>NewIntFromUint64\<close> is the value of the word.
\<close>

definition NewIntFromUint64 :: "u64 \<Rightarrow> int" where
  "NewIntFromUint64 x = uint x"

definition Int_checked :: "int \<Rightarrow> error + int" where
  "Int_checked r = (if 2 ^ 255 \<le> \<bar>r\<bar> then Inl IntOverflow else Inr r)"

definition Int_Mul :: "int \<Rightarrow> int \<Rightarrow> error + int" where
  "Int_Mul a b = Int_checked (a * b)"

definition Int_Add :: "int \<Rightarrow> int \<Rightarrow> error + int" where
  "Int_Add a b = Int_checked (a + b)"

definition IsUint64 :: "int \<Rightarrow> bool" where
  "IsUint64 r \<longleftrightarrow> 0 \<le> r \<and> r < 2 ^ 64"

text \<open>
  The loop \<open>for _, l := range evts { storedBytes += len(l.Key) + len(l.Value) }\<close> on the
  Go \<open>int\<close> \<open>storedBytes\<close>, which starts at 0.
\<close>

fun sumStoredBytes :: "u64 \<Rightarrow> EventAttribute list \<Rightarrow> u64" where
  "sumStoredBytes storedBytes [] = storedBytes"
| "sumStoredBytes storedBytes (l # evts) =
     sumStoredBytes (storedBytes + (of_nat (length (Key l)) + of_nat (length (Value l)))) evts"

definition EventCosts :: "GasRegister \<Rightarrow> EventAttribute list \<Rightarrow> error + u64" where
  "EventCosts g evts =
     (if length evts = 0 then Inr 0
      else
        let storedBytes = sumStoredBytes 0 evts;
            storedBytes = (if storedBytes \<le>s eventAttributeDataFreeTier g then 0
                           else storedBytes - eventAttributeDataFreeTier g)
        in case Int_Mul (NewIntFromUint64 (eventAttributeDataCost g)) (NewIntFromUint64 storedBytes) of
             Inl e \<Rightarrow> Inl e
           | Inr bytesCost \<Rightarrow>
               (case Int_Mul (NewIntFromUint64 (eventPerAttributeCost g))
                             (NewIntFromUint64 (of_nat (length evts))) of
                  Inl e \<Rightarrow> Inl e
                | Inr countCost \<Rightarrow>
                    (case Int_Add bytesCost countCost of
                       Inl e \<Rightarrow> Inl e
                     | Inr r \<Rightarrow>
                         if \<not> IsUint64 r then Inl (ErrorOutOfGas ''overflow'')
                         else Inr (word_of_int r))))"

definition ToWasmVMGas :: "GasRegister \<Rightarrow> u64 \<Rightarrow> u64" where
  "ToWasmVMGas g source = source * gasMultiplier g"

definition FromWasmVMGas :: "GasRegister \<Rightarrow> u64 \<Rightarrow> error + u64" where
  "FromWasmVMGas g source =
     (if gasMultiplier g = 0 then Inl DivideByZero else Inr (source div gasMultiplier g))"

text \<open>The summed byte length of all keys and values, as a natural number.\<close>

definition attrBytes :: "EventAttribute list \<Rightarrow> nat" where
  "attrBytes evts = (\<Sum>l\<leftarrow>evts. length (Key l) + length (Value l))"


section \<open>Port identifiers (x/wasm/internal/keeper/ibc.go)\<close>

subsection \<open>Go's encoding/binary: unsigned varints\<close>

definition MaxVarintLen64 :: nat where
  "MaxVarintLen64 = 10"

text \<open>
  \<open>binary.PutUvarint(buf, x)\<close> writes 7 bits per byte, low bits first, with the top bit of
  every byte but the last set, and returns the number of bytes written. The function below
  is the written prefix \<open>buf[0:size]\<close>, which is all \<open>PortIDForContract\<close> reads of the
  buffer (of \<open>MaxVarintLen64\<close> bytes, enough for any 64-bit value).
\<close>

function PutUvarint :: "u64 \<Rightarrow> bytes" where
  "PutUvarint x =
     (if 0x80 \<le> x then (ucast x OR 0x80) # PutUvarint (drop_bit 7 x) else [ucast x])"
  by pat_completeness auto
termination
proof (relation "measure unat")
  show "wf (measure unat)" by simp
next
  fix x :: u64
  assume "0x80 \<le> x"
  then have "x \<noteq> 0" by auto
  then have "0 < unat x" by (simp add: unat_gt_0)
  then have "unat x div 2 ^ 7 < unat x" by simp
  then show "(drop_bit 7 x, x) \<in> measure unat"
    by (simp add: drop_bit_eq_div unat_div)
qed

declare PutUvarint.simps [simp del]

text \<open>
  \<open>binary.Uvarint(buf)\<close> (Go 1.16 and later) returns the value and the number of bytes
  read; the count is 0 when the buffer ends inside a value, and \<open>-(i + 1)\<close> on a value of
  more than 64 bits. The loop state is the value \<open>x\<close>, the shift \<open>s\<close> and the index \<open>i\<close>.
\<close>

fun Uvarint_loop :: "u64 \<Rightarrow> nat \<Rightarrow> nat \<Rightarrow> bytes \<Rightarrow> u64 \<times> int" where
  "Uvarint_loop x s i [] = (0, 0)"
| "Uvarint_loop x s i (b # buf) =
     (if i = MaxVarintLen64 then (0, - (int i + 1))
      else if b < 0x80 then
        (if i = MaxVarintLen64 - 1 \<and> 1 < b then (0, - (int i + 1))
         else (x OR push_bit s (ucast b), int i + 1))
      else Uvarint_loop (x OR push_bit s (ucast (b AND 0x7f))) (s + 7) (i + 1) buf)"

definition Uvarint :: "bytes \<Rightarrow> u64 \<times> int" where
  "Uvarint buf = Uvarint_loop 0 0 0 buf"

subsection \<open>Go's encoding/base64: the standard alphabet without padding\<close>

definition encodeStd :: string where
  "encodeStd = ''ABCDEFGHIJKLMNOPQRSTUVWXYZabcdefghijklmnopqrstuvwxyz0123456789+/''"

text \<open>\<open>enc.encode[v & 0x3F]\<close>: the index is below 64, the length of the alphabet.\<close>

definition encode :: "u64 \<Rightarrow> char" where
  "encode v = encodeStd ! unat (v AND 0x3F)"

text \<open>
  \<open>Encode\<close>: 3 source bytes become 4 characters; a rest of 1 or 2 bytes becomes 2 or 3
  characters, and no padding character is added (\<open>WithPadding(NoPadding)\<close>).
\<close>

fun EncodeToString :: "bytes \<Rightarrow> string" where
  "EncodeToString (b0 # b1 # b2 # src) =
     (let val = push_bit 16 (ucast b0) OR push_bit 8 (ucast b1) OR ucast b2 :: u64
      in encode (drop_bit 18 val) # encode (drop_bit 12 val) # encode (drop_bit 6 val)
           # encode val # EncodeToString src)"
| "EncodeToString [b0, b1] =
     (let val = push_bit 16 (ucast b0) OR push_bit 8 (ucast b1) :: u64
      in [encode (drop_bit 18 val), encode (drop_bit 12 val), encode (drop_bit 6 val)])"
| "EncodeToString [b0] =
     (let val = push_bit 16 (ucast b0) :: u64
      in [encode (drop_bit 18 val), encode (drop_bit 12 val)])"
| "EncodeToString [] = []"

text \<open>
  The decoding table \<open>enc.decodeMap\<close>: the position of a character in the alphabet, and
  \<open>0xFF\<close> for every other byte.
\<close>

fun index_of :: "'a \<Rightarrow> 'a list \<Rightarrow> nat option" where
  "index_of c [] = None"
| "index_of c (x # xs) =
     (if c = x then Some 0 else (case index_of c xs of None \<Rightarrow> None | Some i \<Rightarrow> Some (Suc i)))"

definition decodeMap :: "char \<Rightarrow> u8" where
  "decodeMap c = (case index_of c encodeStd of None \<Rightarrow> 0xFF | Some i \<Rightarrow> of_nat i)"

text \<open>The low 6 bits of a value as a byte: what a character of the alphabet decodes to.\<close>

definition sextet :: "u64 \<Rightarrow> u8" where
  "sextet v = ucast (v AND 0x3F)"

text \<open>
  The end of \<open>decodeQuantum\<close>: the \<open>dlen\<close> collected 6-bit values (the missing ones are 0)
  are joined into \<open>val\<close> and give \<open>dlen - 1\<close> bytes. The encoding is not strict: the unused
  low bits of a short last group are not checked.
\<close>

definition quantumVal :: "u8 \<Rightarrow> u8 \<Rightarrow> u8 \<Rightarrow> u8 \<Rightarrow> u64" where
  "quantumVal d0 d1 d2 d3 =
     push_bit 18 (ucast d0) OR push_bit 12 (ucast d1) OR push_bit 6 (ucast d2) OR ucast d3"

fun quantumBytes :: "u8 list \<Rightarrow> bytes" where
  "quantumBytes [d0, d1, d2, d3] =
     (let val = quantumVal d0 d1 d2 d3
      in [ucast (drop_bit 16 val), ucast (drop_bit 8 val), ucast val])"
| "quantumBytes [d0, d1, d2] =
     (let val = quantumVal d0 d1 d2 0
      in [ucast (drop_bit 16 val), ucast (drop_bit 8 val)])"
| "quantumBytes [d0, d1] =
     (let val = quantumVal d0 d1 0 0
      in [ucast (drop_bit 16 val)])"
| "quantumBytes dbuf = []"

text \<open>
  \<open>Decode\<close> calls \<open>decodeQuantum\<close> until the input is used up. Both loops are one
  recursion over the input here, with the 6-bit values collected so far (\<open>dbuf[0:j]\<close>) as
  state: a character of the alphabet is collected, and the fourth one closes a group of 3
  bytes; a line feed or carriage return is skipped; any other byte (the padding character
  \<open>=\<close> too, as the encoding has none) is corrupt input. At the end of the input no
  collected value is the normal end, a single one is corrupt input, and 2 or 3 give 1 or 2
  last bytes. \<open>DecodeString\<close> returns the error of \<open>Decode\<close>; the bytes decoded before an
  error are dropped, as the caller does not read them.
\<close>

fun Decode :: "u8 list \<Rightarrow> string \<Rightarrow> error + bytes" where
  "Decode dbuf [] =
     (if length dbuf = 0 then Inr []
      else if length dbuf = 1 then Inl CorruptInputError
      else Inr (quantumBytes dbuf))"
| "Decode dbuf (in' # src) =
     (let out = decodeMap in' in
      if out \<noteq> 0xFF then
        (if length dbuf = 3 then
           (case Decode [] src of
              Inl err \<Rightarrow> Inl err
            | Inr rest \<Rightarrow> Inr (quantumBytes (dbuf @ [out]) @ rest))
         else Decode (dbuf @ [out]) src)
      else if in' = CHR 0x0A \<or> in' = CHR 0x0D then Decode dbuf src
      else Inl CorruptInputError)"

definition DecodeString :: "string \<Rightarrow> error + bytes" where
  "DecodeString s = Decode [] s"

subsection \<open>Ports of contracts\<close>

definition portIDPrefix :: string where
  "portIDPrefix = ''wasm''"

definition HasPrefix :: "string \<Rightarrow> string \<Rightarrow> bool" where
  "HasPrefix s prefix \<longleftrightarrow> length prefix \<le> length s \<and> take (length prefix) s = prefix"

definition PortIDForContract :: "u64 \<Rightarrow> u64 \<Rightarrow> string" where
  "PortIDForContract codeID instanceID =
     (let contractID = push_bit 32 codeID + instanceID
      in portIDPrefix @ EncodeToString (PutUvarint contractID))"

text \<open>
  \<open>contractAddress\<close> is defined in another file of the keeper, and is a parameter here: the
  result of \<open>ContractFromPortID\<close> is \<open>contractAddress codeID instanceID\<close> for the code and
  instance identifiers unpacked from the port.
\<close>

definition ContractFromPortID :: "(u64 \<Rightarrow> u64 \<Rightarrow> 'addr) \<Rightarrow> string \<Rightarrow> error + 'addr" where
  "ContractFromPortID contractAddress portID =
     (if \<not> HasPrefix portID portIDPrefix then Inl (Wrapf ErrInvalid ''without prefix'')
      else case DecodeString (drop (length portIDPrefix) portID) of
        Inl err \<Rightarrow> Inl (Wrapf err ''decoding payload data'')
      | Inr data \<Rightarrow>
          (case Uvarint data of
             (contractID, n) \<Rightarrow>
               if n = 0 \<and> n \<le> 0 then Inl (Wrapf ErrInvalid ''decoding contract id'')
               else
                 let codeID = drop_bit 32 contractID;
                     instanceID = contractID AND 0xffffffff
                 in Inr (contractAddress codeID instanceID)))"


subsection \<open>The capability authority\<close>

text \<open>
  Modelled from the spec: the capability authority that the binder consumes (the port
  keeper and the scoped capability keeper of the host ledger, which are not among the
  sources). The spec gives its interface as \<open>bindPort(name) -> capability\<close>,
  \<open>getCapability(name) -> capability|absent\<close> and
  \<open>claimCapability(capability, name) -> ok|error\<close>: a capability is created once per
  endpoint by the authority; \<open>bind\<close> is not safe to call twice for the same name, and calling
  it again after success fails; \<open>claim\<close> records ownership and fails if the name is already
  claimed by a different capability; \<open>getCapability\<close> looks the owner's capability up by
  name. Both failures are the spec's \<open>CapabilityConflict\<close>.
\<close>

type_synonym Capability = nat

record Authority =
  boundPorts :: "string set"              \<comment> \<open>the names \<open>bindPort\<close> has bound\<close>
  nextCapability :: Capability            \<comment> \<open>the next capability to create\<close>
  ownedBy :: "string \<rightharpoonup> Capability"       \<comment> \<open>the claims of this module, by name\<close>

definition BindPort :: "Authority \<Rightarrow> string \<Rightarrow> error + Capability \<times> Authority" where
  "BindPort ctx portID =
     (if portID \<in> boundPorts ctx then Inl CapabilityConflict
      else Inr (nextCapability ctx,
                ctx\<lparr>boundPorts := insert portID (boundPorts ctx),
                    nextCapability := Suc (nextCapability ctx)\<rparr>))"

definition GetCapability :: "Authority \<Rightarrow> string \<Rightarrow> Capability option" where
  "GetCapability ctx name = ownedBy ctx name"

definition ScopedClaimCapability :: "Authority \<Rightarrow> Capability \<Rightarrow> string \<Rightarrow> error + Authority" where
  "ScopedClaimCapability ctx cap name =
     (case ownedBy ctx name of
        None \<Rightarrow> Inr (ctx\<lparr>ownedBy := (ownedBy ctx)(name \<mapsto> cap)\<rparr>)
      | Some other \<Rightarrow>
          if other \<noteq> cap then Inl CapabilityConflict
          else Inr (ctx\<lparr>ownedBy := (ownedBy ctx)(name \<mapsto> cap)\<rparr>))"

text \<open>\<open>host.PortPath\<close> of the host ledger: the name under which a port's capability is kept.\<close>

definition PortPath :: "string \<Rightarrow> string" where
  "PortPath portID = ''ports/'' @ portID"

subsection \<open>Binding the port of a contract\<close>

text \<open>
  Of the keeper, the binder reads whether \<open>portKeeper\<close> is set (it is \<open>nil\<close> where the tests
  run without IBC). The state of the authority lives in the context \<open>ctx\<close>, which is passed
  in and returned. An error (and the panic of a refused \<open>BindPort\<close>) aborts the transaction,
  so no state is returned with it.
\<close>

record Keeper =
  hasPortKeeper :: bool

definition ClaimCapability :: "Keeper \<Rightarrow> Authority \<Rightarrow> Capability \<Rightarrow> string \<Rightarrow> error + Authority" where
  "ClaimCapability k ctx cap name = ScopedClaimCapability ctx cap name"

definition bindIbcPort :: "Keeper \<Rightarrow> Authority \<Rightarrow> string \<Rightarrow> error + Authority" where
  "bindIbcPort k ctx portID =
     (if \<not> hasPortKeeper k then Inr ctx
      else case BindPort ctx portID of
        Inl err \<Rightarrow> Inl err
      | Inr (cap, ctx') \<Rightarrow> ClaimCapability k ctx' cap (PortPath portID))"

definition ensureIbcPort :: "Keeper \<Rightarrow> Authority \<Rightarrow> u64 \<Rightarrow> u64 \<Rightarrow> string \<times> (error + Authority)" where
  "ensureIbcPort k ctx codeID instanceID =
     (if \<not> hasPortKeeper k then (PortIDForContract codeID instanceID, Inr ctx)
      else
        let portID = PortIDForContract codeID instanceID
        in case GetCapability ctx (PortPath portID) of
             Some cap \<Rightarrow> (portID, Inr ctx)
           | None \<Rightarrow> (portID, bindIbcPort k ctx portID))"

text \<open>A keeper with IBC set up, and the authority before any port is bound.\<close>

definition ibcKeeper :: Keeper where
  "ibcKeeper = \<lparr> hasPortKeeper = True \<rparr>"

definition freshAuthority :: Authority where
  "freshAuthority = \<lparr> boundPorts = {}, nextCapability = 0, ownedBy = Map.empty \<rparr>"


section \<open>The ping-pong mock contract (x/wasm/relay\_pingpong\_test.go)\<close>

subsection \<open>The contract's store\<close>

text \<open>
  The contract's \<open>prefix.Store\<close>: \<open>Get\<close> returns \<open>nil\<close> for a key that is not set. The keys
  are the byte strings of the source, written as strings.
\<close>

type_synonym store = "string \<rightharpoonup> bytes"

definition ibcEndpointsKey :: string where "ibcEndpointsKey = ''ibc-endpoints''"
definition maxValueKey :: string where "maxValueKey = ''max-value''"
definition lastBallSentKey :: string where "lastBallSentKey = ''lastBallSent''"
definition lastBallReceivedKey :: string where "lastBallReceivedKey = ''lastBallReceived''"
definition sentBallsCountKey :: string where "sentBallsCountKey = ''sentBalls''"
definition receivedBallsCountKey :: string where "receivedBallsCountKey = ''recvBalls''"
definition confirmedBallsCountKey :: string where "confirmedBallsCountKey = ''confBalls''"

text \<open>
  \<open>sdk.Uint64ToBigEndian\<close> writes 8 bytes, the most significant first.
  \<open>sdk.BigEndianToUint64\<close> returns 0 for an empty slice and reads the first 8 bytes
  otherwise; on fewer than 8 bytes the read panics (index out of range).
\<close>

definition Uint64ToBigEndian :: "u64 \<Rightarrow> bytes" where
  "Uint64ToBigEndian i =
     [ucast (drop_bit 56 i), ucast (drop_bit 48 i), ucast (drop_bit 40 i), ucast (drop_bit 32 i),
      ucast (drop_bit 24 i), ucast (drop_bit 16 i), ucast (drop_bit 8 i), ucast i]"

definition BigEndianToUint64 :: "bytes \<Rightarrow> error + u64" where
  "BigEndianToUint64 bz =
     (if length bz = 0 then Inr 0
      else if length bz < 8 then Inl IndexOutOfRange
      else Inr (ucast (bz ! 7) OR push_bit 8 (ucast (bz ! 6)) OR push_bit 16 (ucast (bz ! 5))
                OR push_bit 24 (ucast (bz ! 4)) OR push_bit 32 (ucast (bz ! 3))
                OR push_bit 40 (ucast (bz ! 2)) OR push_bit 48 (ucast (bz ! 1))
                OR push_bit 56 (ucast (bz ! 0))))"

text \<open>
  The first lines of \<open>incrementCounter\<close>: the counter under a key, 0 when the key is not
  set. \<open>QueryState\<close> decodes a counter the same way.
\<close>

definition loadCounter :: "string \<Rightarrow> store \<Rightarrow> error + u64" where
  "loadCounter key store =
     (case store key of
        None \<Rightarrow> Inr 0
      | Some bz \<Rightarrow> BigEndianToUint64 bz)"

definition incrementCounter :: "string \<Rightarrow> store \<Rightarrow> error + u64 \<times> store" where
  "incrementCounter key store =
     (case loadCounter key store of
        Inl err \<Rightarrow> Inl err
      | Inr count \<Rightarrow>
          let count = count + 1
          in Inr (count, store(key \<mapsto> Uint64ToBigEndian count)))"

subsection \<open>Payloads\<close>

definition ping :: string where "ping = ''ping''"
definition pong :: string where "pong = ''pong''"
definition doNotTimeout :: u64 where "doNotTimeout = 110000"

text \<open>\<open>hit\<close> is \<open>map[string]uint64\<close>; reading a key that is not there gives 0.\<close>

type_synonym hit = "string \<rightharpoonup> u64"

definition hitAt :: "hit \<Rightarrow> string \<Rightarrow> u64" where
  "hitAt h key = (case h key of None \<Rightarrow> 0 | Some v \<Rightarrow> v)"

definition NewHit :: "string \<Rightarrow> u64 \<Rightarrow> hit" where
  "NewHit player count = [player \<mapsto> count]"

record hitAcknowledgement =
  Error :: string
  Success :: "hit option"

definition BuildAck :: "hit \<Rightarrow> hitAcknowledgement" where
  "BuildAck h = \<lparr> Error = [], Success = Some h \<rparr>"

definition BuildError :: "hit \<Rightarrow> string \<Rightarrow> hitAcknowledgement" where
  "BuildError h errMsg = \<lparr> Error = errMsg, Success = None \<rparr>"

text \<open>The types of the contract interface, with the fields the mock contract reads or sets.\<close>

record IBCEndpoint =
  Channel :: string
  Port :: string

record IBCChannel =
  Endpoint :: IBCEndpoint
  CounterpartyEndpoint :: IBCEndpoint
  Version :: string

record IBCPacket =
  Data :: bytes
  Source :: IBCEndpoint

record IBCAcknowledgement =
  Acknowledgement' :: bytes
  OriginalPacket :: IBCPacket

record IBCSendMsg =
  ChannelID :: string
  Data' :: bytes
  TimeoutHeight :: u64

datatype IBCMsg = SendPacket IBCSendMsg

datatype CosmosMsg = IBC IBCMsg

record IBCPacketReceiveResponse =
  Acknowledgement :: bytes
  Messages :: "CosmosMsg list"

record connectedChannelsModel =
  Our :: IBCEndpoint
  Their :: IBCEndpoint

text \<open>
  Go's encoding/json is a parameter of the contract: \<open>json.Unmarshal\<close> into a \<open>hit\<close>, a
  \<open>hitAcknowledgement\<close> or a list of \<open>connectedChannelsModel\<close> gives the value or the
  message of an error, and \<open>json.Marshal\<close> of these values gives bytes and does not fail.
\<close>

record codec =
  unmarshalHit :: "bytes \<Rightarrow> string + hit"
  marshalHit :: "hit \<Rightarrow> bytes"
  unmarshalAck :: "bytes \<Rightarrow> string + hitAcknowledgement"
  marshalAck :: "hitAcknowledgement \<Rightarrow> bytes"
  unmarshalEndpoints :: "bytes \<Rightarrow> string + connectedChannelsModel list"
  marshalEndpoints :: "connectedChannelsModel list \<Rightarrow> bytes"

text \<open>\<open>fmt.Sprintf("%d", n)\<close> for an unsigned value.\<close>

function decimal :: "nat \<Rightarrow> string" where
  "decimal n =
     (if n < 10 then [char_of (48 + n)]
      else decimal (n div 10) @ [char_of (48 + n mod 10)])"
  by pat_completeness auto
termination
  by (relation "measure id") auto

declare decimal.simps [simp del]

subsection \<open>The player\<close>

record player =
  actor :: string

definition counterParty :: "string \<Rightarrow> error + string" where
  "counterParty s =
     (if s = ping then Inr pong
      else if s = pong then Inr ping
      else Inl (Unsupported s))"

text \<open>
  The list under \<open>ibcEndpointsKey\<close>, as \<open>loadEndpoints\<close> and \<open>storeEndpoint\<close> read it: empty
  when the key is not set; \<open>require.NoError\<close> stops the test when the bytes do not parse.
\<close>

definition storedEndpoints :: "codec \<Rightarrow> store \<Rightarrow> error + connectedChannelsModel list" where
  "storedEndpoints cdc store =
     (case store ibcEndpointsKey of
        None \<Rightarrow> Inr []
      | Some bz \<Rightarrow>
          (case unmarshalEndpoints cdc bz of
             Inl msg \<Rightarrow> Inl (TestFatal msg)
           | Inr counterparties \<Rightarrow> Inr counterparties))"

definition loadEndpoints :: "codec \<Rightarrow> store \<Rightarrow> string \<Rightarrow> error + connectedChannelsModel" where
  "loadEndpoints cdc store channelID =
     (case storedEndpoints cdc store of
        Inl err \<Rightarrow> Inl err
      | Inr counterparties \<Rightarrow>
          (case List.find (\<lambda>v. Channel (Our v) = channelID) counterparties of
             Some v \<Rightarrow> Inr v
           | None \<Rightarrow> Inl (TestFatal (''no counterparty found for channel '' @ channelID))))"

definition storeEndpoint :: "codec \<Rightarrow> store \<Rightarrow> IBCChannel \<Rightarrow> error + store" where
  "storeEndpoint cdc store channel =
     (case storedEndpoints cdc store of
        Inl err \<Rightarrow> Inl err
      | Inr counterparties \<Rightarrow>
          let counterparties =
                counterparties @ [\<lparr> Our = Endpoint channel, Their = CounterpartyEndpoint channel \<rparr>];
              bz = marshalEndpoints cdc counterparties
          in Inr (store(ibcEndpointsKey \<mapsto> bz)))"

text \<open>\<open>OnIBCChannelConnect\<close> returns an empty response and no error; the result is the store.\<close>

definition OnIBCChannelConnect :: "codec \<Rightarrow> store \<Rightarrow> IBCChannel \<Rightarrow> error + store" where
  "OnIBCChannelConnect cdc store channel = storeEndpoint cdc store channel"

text \<open>
  \<open>OnIBCPacketReceive\<close> returns the response with a \<open>nil\<close> error on every path that
  returns; \<open>Inl\<close> is a panic (of \<open>counterParty\<close> or of a counter that cannot be read).
\<close>

definition OnIBCPacketReceive ::
  "codec \<Rightarrow> player \<Rightarrow> IBCPacket \<Rightarrow> store \<Rightarrow> error + IBCPacketReceiveResponse \<times> store" where
  "OnIBCPacketReceive cdc p packet store =
     (case unmarshalHit cdc (Data packet) of
        Inl msg \<Rightarrow>
          Inr (\<lparr> Acknowledgement = marshalAck cdc \<lparr> Error = msg, Success = None \<rparr>,
                 Messages = [] \<rparr>, store)
      | Inr receivedBall \<Rightarrow>
          (case incrementCounter receivedBallsCountKey store of
             Inl err \<Rightarrow> Inl err
           | Inr (received, store) \<Rightarrow>
          (case counterParty (actor p) of
             Inl err \<Rightarrow> Inl err
           | Inr other \<Rightarrow>
          let otherCount = hitAt receivedBall other;
              store = store(lastBallReceivedKey \<mapsto> Uint64ToBigEndian otherCount)
          in
          (case (case store maxValueKey of
                   None \<Rightarrow> Inr None
                 | Some maxVal \<Rightarrow>
                     (case BigEndianToUint64 maxVal of
                        Inl err \<Rightarrow> Inl err
                      | Inr m \<Rightarrow> Inr (if m < otherCount then Some m else None))) of
             Inl err \<Rightarrow> Inl err
           | Inr (Some m) \<Rightarrow>
               let errMsg = ''max value exceeded: '' @ decimal (unat m) @ '' got ''
                              @ decimal (unat otherCount)
               in Inr (\<lparr> Acknowledgement = marshalAck cdc (BuildError receivedBall errMsg),
                         Messages = [] \<rparr>, store)
           | Inr None \<Rightarrow>
          (case incrementCounter lastBallSentKey store of
             Inl err \<Rightarrow> Inl err
           | Inr (nextValue, store) \<Rightarrow>
          let newHit = NewHit (actor p) nextValue;
              respHit = SendPacket \<lparr> ChannelID = Channel (Source packet),
                                     Data' = marshalHit cdc newHit,
                                     TimeoutHeight = doNotTimeout \<rparr>
          in
          (case incrementCounter sentBallsCountKey store of
             Inl err \<Rightarrow> Inl err
           | Inr (sent, store) \<Rightarrow>
               Inr (\<lparr> Acknowledgement = marshalAck cdc (BuildAck receivedBall),
                      Messages = [IBC respHit] \<rparr>, store)))))))"

text \<open>
  \<open>OnIBCPacketAcknowledgement\<close> logs one of two lines, by whether the acknowledgement has a
  \<open>Success\<close>; the line is returned with the store.
\<close>

datatype logLine =
    Acknowledged string u64        \<comment> \<open>\<open>"[%s] acknowledged %d: %v"\<close>\<close>
  | AppLayerError string string    \<comment> \<open>\<open>"[%s] received app layer error: %s"\<close>\<close>

definition OnIBCPacketAcknowledgement ::
  "codec \<Rightarrow> player \<Rightarrow> IBCAcknowledgement \<Rightarrow> store \<Rightarrow> error + logLine \<times> store" where
  "OnIBCPacketAcknowledgement cdc p packetAck store =
     (case unmarshalHit cdc (Data (OriginalPacket packetAck)) of
        Inl msg \<Rightarrow> Inl (JsonError msg)
      | Inr sentBall \<Rightarrow>
          (case unmarshalAck cdc (Acknowledgement' packetAck) of
             Inl msg \<Rightarrow> Inl (JsonError msg)
           | Inr ack \<Rightarrow>
               let line = (case Success ack of
                             Some h \<Rightarrow> Acknowledged (actor p) (hitAt sentBall (actor p))
                           | None \<Rightarrow> AppLayerError (actor p) (Error ack))
               in (case incrementCounter confirmedBallsCountKey store of
                     Inl err \<Rightarrow> Inl err
                   | Inr (confirmed, store) \<Rightarrow> Inr (line, store))))"

text \<open>The number of stored endpoint pairs whose local channel is the given one.\<close>

definition pairsOfChannel :: "codec \<Rightarrow> store \<Rightarrow> string \<Rightarrow> error + nat" where
  "pairsOfChannel cdc store channelID =
     (case storedEndpoints cdc store of
        Inl err \<Rightarrow> Inl err
      | Inr counterparties \<Rightarrow>
          Inr (length (filter (\<lambda>v. Channel (Our v) = channelID) counterparties)))"


subsection \<open>A codec for running the contract on concrete packets\<close>

text \<open>
  A small codec that stands in for JSON where the contract is evaluated on concrete
  inputs. A hit of \<open>ping\<close> or \<open>pong\<close> is a tag byte (1 or 2) and the 8 bytes of the value; an
  acknowledgement is a byte 1 and the hit, or a byte 0 and the error text; a list of
  endpoint pairs is the four strings of each pair, each closed by a zero byte.
\<close>

definition bytesOf :: "string \<Rightarrow> bytes" where
  "bytesOf s = map of_char s"

definition stringOf :: "bytes \<Rightarrow> string" where
  "stringOf bz = map (\<lambda>b. char_of (unat b)) bz"

definition testUnmarshalHit :: "bytes \<Rightarrow> string + hit" where
  "testUnmarshalHit bz =
     (case bz of
        [] \<Rightarrow> Inl ''unexpected end of input''
      | tag # rest \<Rightarrow>
          if length rest = 8 \<and> (tag = 1 \<or> tag = 2) then
            (case BigEndianToUint64 rest of
               Inl err \<Rightarrow> Inl ''invalid value''
             | Inr v \<Rightarrow> Inr [(if tag = 1 then ping else pong) \<mapsto> v])
          else Inl ''invalid hit'')"

definition testMarshalHit :: "hit \<Rightarrow> bytes" where
  "testMarshalHit h =
     (case h ping of
        Some v \<Rightarrow> 1 # Uint64ToBigEndian v
      | None \<Rightarrow> (case h pong of Some v \<Rightarrow> 2 # Uint64ToBigEndian v | None \<Rightarrow> [0]))"

definition testUnmarshalAck :: "bytes \<Rightarrow> string + hitAcknowledgement" where
  "testUnmarshalAck bz =
     (case bz of
        [] \<Rightarrow> Inl ''unexpected end of input''
      | tag # rest \<Rightarrow>
          if tag = 1 then
            (case testUnmarshalHit rest of
               Inl msg \<Rightarrow> Inl msg
             | Inr h \<Rightarrow> Inr \<lparr> Error = [], Success = Some h \<rparr>)
          else if tag = 0 then Inr \<lparr> Error = stringOf rest, Success = None \<rparr>
          else Inl ''invalid acknowledgement'')"

definition testMarshalAck :: "hitAcknowledgement \<Rightarrow> bytes" where
  "testMarshalAck a =
     (case Success a of
        Some h \<Rightarrow> 1 # testMarshalHit h
      | None \<Rightarrow> 0 # bytesOf (Error a))"

fun splitFields :: "bytes \<Rightarrow> bytes \<Rightarrow> bytes list" where
  "splitFields field [] = []"
| "splitFields field (b # bz) =
     (if b = 0 then rev field # splitFields [] bz else splitFields (b # field) bz)"

fun groupPairs :: "string list \<Rightarrow> connectedChannelsModel list option" where
  "groupPairs [] = Some []"
| "groupPairs (a # b # c # d # rest) =
     (case groupPairs rest of
        None \<Rightarrow> None
      | Some pairs \<Rightarrow>
          Some (\<lparr> Our = \<lparr> Channel = a, Port = b \<rparr>, Their = \<lparr> Channel = c, Port = d \<rparr> \<rparr> # pairs))"
| "groupPairs rest = None"

definition testUnmarshalEndpoints :: "bytes \<Rightarrow> string + connectedChannelsModel list" where
  "testUnmarshalEndpoints bz =
     (case groupPairs (map stringOf (splitFields [] bz)) of
        None \<Rightarrow> Inl ''invalid endpoints''
      | Some pairs \<Rightarrow> Inr pairs)"

definition testMarshalEndpoints :: "connectedChannelsModel list \<Rightarrow> bytes" where
  "testMarshalEndpoints pairs =
     concat (map (\<lambda>v. bytesOf (Channel (Our v)) @ [0] @ bytesOf (Port (Our v)) @ [0]
                       @ bytesOf (Channel (Their v)) @ [0] @ bytesOf (Port (Their v)) @ [0])
                 pairs)"

definition testCodec :: codec where
  "testCodec =
     \<lparr> unmarshalHit = testUnmarshalHit,
       marshalHit = testMarshalHit,
       unmarshalAck = testUnmarshalAck,
       marshalAck = testMarshalAck,
       unmarshalEndpoints = testUnmarshalEndpoints,
       marshalEndpoints = testMarshalEndpoints \<rparr>"

text \<open>A channel between the ports of two contracts, and the pair it is stored as.\<close>

definition testChannel :: IBCChannel where
  "testChannel =
     \<lparr> Endpoint = \<lparr> Channel = ''channel-0'', Port = ''wasmgoCAgBA'' \<rparr>,
       CounterpartyEndpoint = \<lparr> Channel = ''channel-7'', Port = ''wasmg4CAgBA'' \<rparr>,
       Version = ''ping'' \<rparr>"

definition testPair :: connectedChannelsModel where
  "testPair = \<lparr> Our = Endpoint testChannel, Their = CounterpartyEndpoint testChannel \<rparr>"


section \<open>Gas conversion\<close>

text \<open>
  C1. For every ledger-gas value \<open>g\<close> whose product with the multiplier fits 64 bits, and a
  multiplier above zero, converting to VM gas and back returns \<open>g\<close>. \<open>ToWasmVMGas\<close> is the
  exact product there, and \<open>FromWasmVMGas\<close> is the floor of the quotient for every VM-gas
  value \<open>v\<close>: converting the result back to VM gas never exceeds \<open>v\<close>.
\<close>

theorem gas_round_trip:
  assumes "unat g * unat (gasMultiplier r) < 2 ^ 64" and "gasMultiplier r \<noteq> 0"
  shows "FromWasmVMGas r (ToWasmVMGas r g) = Inr g
       \<and> unat (ToWasmVMGas r g) = unat g * unat (gasMultiplier r)
       \<and> (\<exists>q. FromWasmVMGas r v = Inr q
              \<and> unat q = unat v div unat (gasMultiplier r)
              \<and> unat q * unat (gasMultiplier r) \<le> unat v)"
proof -
  have m: "0 < unat (gasMultiplier r)"
    using assms(2) by (simp add: unat_gt_0)
  have e: "unat (g * gasMultiplier r) = unat g * unat (gasMultiplier r)"
    using assms(1) by (simp add: unat_word_ariths)
  have "unat ((g * gasMultiplier r) div gasMultiplier r) = unat g"
    using m e by (simp add: unat_div)
  then have "(g * gasMultiplier r) div gasMultiplier r = g"
    by (simp add: word_unat_eq_iff)
  then show ?thesis
    using assms(2) e by (auto simp: FromWasmVMGas_def ToWasmVMGas_def unat_div)
qed

theorem gas_round_trip_witness:
  "unat (7 :: u64) * unat (gasMultiplier DefaultGasRegister) < 2 ^ 64
   \<and> gasMultiplier DefaultGasRegister \<noteq> 0
   \<and> FromWasmVMGas DefaultGasRegister (ToWasmVMGas DefaultGasRegister 7) = Inr 7
   \<and> ToWasmVMGas DefaultGasRegister 7 = 700
   \<and> FromWasmVMGas DefaultGasRegister 1299 = Inr 12"
  using gas_round_trip [of 7 DefaultGasRegister 1299]
  by (simp add: DefaultGasRegister_def DefaultGasMultiplier_def FromWasmVMGas_def ToWasmVMGas_def)

text \<open>
  C10. The claim is that \<open>ToWasmVMGas\<close> returns the exact product for every ledger-gas
  input. With the default multiplier 100 and the ledger gas 184467440737095517 the exact
  product is 18446744073709551700, which is 84 above \<open>2 ^ 64\<close>, and the function returns 84.
\<close>

theorem ToWasmVMGas_wraps:
  "ToWasmVMGas DefaultGasRegister 184467440737095517 = 84
   \<and> unat (184467440737095517 :: u64) * unat (gasMultiplier DefaultGasRegister)
       = 18446744073709551700
   \<and> unat (ToWasmVMGas DefaultGasRegister 184467440737095517)
       \<noteq> unat (184467440737095517 :: u64) * unat (gasMultiplier DefaultGasRegister)"
  by (simp add: ToWasmVMGas_def DefaultGasRegister_def DefaultGasMultiplier_def)

section \<open>Event costs\<close>

lemma sumStoredBytes_eq: "sumStoredBytes acc evts = acc + of_nat (attrBytes evts)"
  by (induction evts arbitrary: acc) (simp_all add: attrBytes_def)

lemma sint_of_nat_small:
  assumes "n < 2 ^ 63"
  shows "sint (of_nat n :: u64) = int n"
proof -
  have "sint (of_nat n :: u64) = signed_take_bit 63 (int n)"
    by (simp add: signed_of_nat)
  also have "\<dots> = int n"
    using assms by (simp add: signed_take_bit_int_eq_self)
  finally show ?thesis .
qed

lemma uint_of_nat_small:
  assumes "n < 2 ^ 64"
  shows "uint (of_nat n :: u64) = int n"
  using assms by (simp add: uint_nat unat_of_nat)

lemma uint_eq_sint_nonneg:
  assumes "0 \<le> sint (w :: u64)"
  shows "uint w = sint w"
proof -
  have "sint w < 2 ^ 63" using sint_lt [of w] by simp
  then have "take_bit 64 (sint w) = sint w"
    using assms by (simp add: take_bit_int_eq_self)
  then show ?thesis by (simp add: uint_sint)
qed

text \<open>The free tier on a byte count that fits Go's \<open>int\<close>: truncated subtraction.\<close>

lemma free_tier_uint:
  assumes n: "n < 2 ^ 63" and t: "0 \<le>s tier"
  shows "uint (if (of_nat n :: u64) \<le>s tier then 0 else of_nat n - tier)
           = int (n - nat (sint tier))"
proof -
  have st: "0 \<le> sint tier" using t by (simp add: word_sle_eq)
  have sn: "sint (of_nat n :: u64) = int n" by (rule sint_of_nat_small [OF n])
  have ut: "uint tier = sint tier" by (rule uint_eq_sint_nonneg [OF st])
  have un: "uint (of_nat n :: u64) = int n" using n by (simp add: uint_of_nat_small)
  show ?thesis
  proof (cases "int n \<le> sint tier")
    case True
    then show ?thesis by (simp add: word_sle_eq sn)
  next
    case False
    then have le: "uint tier \<le> uint (of_nat n :: u64)" using ut un by simp
    have "uint ((of_nat n :: u64) - tier) = uint (of_nat n :: u64) - uint tier"
      using le uint_sub_lem by blast
    then show ?thesis using False ut un st by (simp add: word_sle_eq sn)
  qed
qed

lemma Int_checked_small: "0 \<le> r \<Longrightarrow> r < 2 ^ 255 \<Longrightarrow> Int_checked r = Inr r"
  by (simp add: Int_checked_def)

lemma uint_mult_bound: "uint (a :: u64) * uint (b :: u64) < 2 ^ 128"
proof -
  have a: "uint a < 2 ^ 64" using uint_bounded [of a] by simp
  have b: "uint b < 2 ^ 64" using uint_bounded [of b] by simp
  have "uint a * uint b < 2 ^ 64 * 2 ^ 64"
    by (rule mult_strict_mono) (use a b in simp_all)
  then show ?thesis by simp
qed

text \<open>The 255-bit limit of \<open>sdk.Int\<close> is out of reach of products and sums of 64-bit values.\<close>

lemma Int_Mul_u64: "Int_Mul (NewIntFromUint64 a) (NewIntFromUint64 b) = Inr (uint a * uint b)"
proof -
  have "uint a * uint b < 2 ^ 255"
    using uint_mult_bound [of a b] by (rule less_trans) simp
  then show ?thesis
    by (simp add: Int_Mul_def NewIntFromUint64_def Int_checked_small)
qed

lemma Int_Add_u64:
  "Int_Add (uint (a :: u64) * uint (b :: u64)) (uint (c :: u64) * uint (d :: u64))
     = Inr (uint a * uint b + uint c * uint d)"
proof -
  have "uint a * uint b + uint c * uint d < 2 ^ 128 + 2 ^ 128"
    by (rule add_strict_mono) (rule uint_mult_bound)+
  then have "uint a * uint b + uint c * uint d < 2 ^ 255" by simp
  then show ?thesis
    by (simp add: Int_Add_def Int_checked_small)
qed

lemma EventCosts_eq:
  assumes "evts \<noteq> []"
  shows "EventCosts g evts =
     (let r = uint (eventAttributeDataCost g)
                * uint (if sumStoredBytes 0 evts \<le>s eventAttributeDataFreeTier g then 0
                        else sumStoredBytes 0 evts - eventAttributeDataFreeTier g)
              + uint (eventPerAttributeCost g) * uint (of_nat (length evts) :: u64)
      in if r < 2 ^ 64 then Inr (word_of_int r) else Inl (ErrorOutOfGas ''overflow''))"
  using assms
  by (simp add: EventCosts_def Let_def Int_Mul_u64 Int_Add_u64 IsUint64_def)


lemma attrBytes_simps:
  "attrBytes [] = 0"
  "attrBytes (l # ls) = length (Key l) + length (Value l) + attrBytes ls"
  by (simp_all add: attrBytes_def)

lemmas register_defs =
  NewGasRegister_def DefaultGasRegister_def DefaultInstanceCost_def DefaultCompileCost_def
  DefaultGasMultiplier_def DefaultEventAttributeDataCost_def
  DefaultEventAttributeDataFreeTier_def DefaultPerAttributeCost_def

lemmas EventCosts_eval =
  EventCosts_def Int_Mul_def Int_Add_def Int_checked_def NewIntFromUint64_def IsUint64_def

text \<open>
  C4. Take an attribute slice as Go can hold it (its length and the summed length of its
  keys and values fit Go's \<open>int\<close>) and a free tier that is a byte count (not negative).
  When \<open>billableBytes * eventAttrCost + count * eventAttrCountCost\<close>, with
  \<open>billableBytes = max 0 (bytes - freeTier)\<close>, is beyond the 64-bit range, \<open>EventCosts\<close>
  panics with \<open>ErrorOutOfGas{"overflow"}\<close>: it returns no value, wrapped or truncated.
\<close>

theorem EventCosts_overflow_panics:
  assumes len: "length evts < 2 ^ 63" and bytes: "attrBytes evts < 2 ^ 63"
    and tier: "0 \<le>s eventAttributeDataFreeTier g"
    and over: "2 ^ 64 \<le> max 0 (int (attrBytes evts) - sint (eventAttributeDataFreeTier g))
                            * uint (eventAttributeDataCost g)
                        + int (length evts) * uint (eventPerAttributeCost g)"
  shows "EventCosts g evts = Inl (ErrorOutOfGas ''overflow'')"
proof -
  have ne: "evts \<noteq> []"
  proof
    assume "evts = []"
    then have "attrBytes evts = 0" and "length evts = 0" by (simp_all add: attrBytes_def)
    moreover have "0 \<le> sint (eventAttributeDataFreeTier g)"
      using tier by (simp add: word_sle_eq)
    ultimately show False using over by (simp add: max_def split: if_splits)
  qed
  have m: "int (attrBytes evts - nat (sint (eventAttributeDataFreeTier g)))
             = max 0 (int (attrBytes evts) - sint (eventAttributeDataFreeTier g))"
    using tier by (simp add: word_sle_eq max_def)
  have b: "uint (if (of_nat (attrBytes evts) :: u64) \<le>s eventAttributeDataFreeTier g then 0
                 else of_nat (attrBytes evts) - eventAttributeDataFreeTier g)
             = max 0 (int (attrBytes evts) - sint (eventAttributeDataFreeTier g))"
    using free_tier_uint [OF bytes tier] by (simp only: m)
  have l: "uint (of_nat (length evts) :: u64) = int (length evts)"
    using len by (simp add: uint_of_nat_small)
  have nlt: "\<not> uint (eventAttributeDataCost g)
                * max 0 (int (attrBytes evts) - sint (eventAttributeDataFreeTier g))
              + uint (eventPerAttributeCost g) * int (length evts) < 2 ^ 64"
    using over by (simp add: mult.commute)
  have "\<not> uint (eventAttributeDataCost g)
                * uint (if (of_nat (attrBytes evts) :: u64) \<le>s eventAttributeDataFreeTier g then 0
                        else of_nat (attrBytes evts) - eventAttributeDataFreeTier g)
              + uint (eventPerAttributeCost g) * uint (of_nat (length evts) :: u64) < 2 ^ 64"
    unfolding b l by (fact nlt)
  moreover have "sumStoredBytes 0 evts = of_nat (attrBytes evts)"
    by (simp add: sumStoredBytes_eq)
  ultimately show ?thesis
    unfolding EventCosts_eq [OF ne] Let_def by (simp only: if_False)
qed


theorem EventCosts_overflow_panics_witness:
  "length [\<lparr>Key = ''ke'', Value = ''va''\<rparr>] < 2 ^ 63
   \<and> attrBytes [\<lparr>Key = ''ke'', Value = ''va''\<rparr>] < 2 ^ 63
   \<and> 0 \<le>s eventAttributeDataFreeTier (NewGasRegister 40000 2 100 10 (2 ^ 63) 2)
   \<and> 2 ^ 64 \<le> max 0 (int (attrBytes [\<lparr>Key = ''ke'', Value = ''va''\<rparr>])
                        - sint (eventAttributeDataFreeTier (NewGasRegister 40000 2 100 10 (2 ^ 63) 2)))
                  * uint (eventAttributeDataCost (NewGasRegister 40000 2 100 10 (2 ^ 63) 2))
                + int (length [\<lparr>Key = ''ke'', Value = ''va''\<rparr>])
                  * uint (eventPerAttributeCost (NewGasRegister 40000 2 100 10 (2 ^ 63) 2))
   \<and> EventCosts (NewGasRegister 40000 2 100 10 (2 ^ 63) 2) [\<lparr>Key = ''ke'', Value = ''va''\<rparr>]
       = Inl (ErrorOutOfGas ''overflow'')"
  using EventCosts_overflow_panics
          [of "[\<lparr>Key = ''ke'', Value = ''va''\<rparr>]" "NewGasRegister 40000 2 100 10 (2 ^ 63) 2"]
  by (simp add: attrBytes_simps register_defs word_sle_eq)

text \<open>
  C5 as stated fails where the per-attribute cost is large: with a per-attribute cost of
  \<open>2 ^ 63\<close> and two attributes with empty keys and values (0 bytes, inside the default free
  tier of 100), \<open>count * eventAttrCountCost\<close> is \<open>2 ^ 64\<close> and \<open>EventCosts\<close> panics
  instead of returning it.
\<close>

theorem EventCosts_free_tier_counterexample:
  "int (attrBytes [\<lparr>Key = [], Value = []\<rparr>, \<lparr>Key = [], Value = []\<rparr>])
      \<le> sint (eventAttributeDataFreeTier (NewGasRegister 40000 2 100 (2 ^ 63) 1 100))
   \<and> EventCosts (NewGasRegister 40000 2 100 (2 ^ 63) 1 100)
        [\<lparr>Key = [], Value = []\<rparr>, \<lparr>Key = [], Value = []\<rparr>]
       = Inl (ErrorOutOfGas ''overflow'')"
  by (simp add: attrBytes_simps register_defs EventCosts_eval)

text \<open>
  C5, as amended. When the summed byte length of all keys and values is at most the free
  tier and \<open>count * eventAttrCountCost\<close> fits 64 bits, \<open>EventCosts\<close> returns exactly that
  product (0 for the empty list): the per-byte component is waived.
\<close>

theorem EventCosts_free_tier:
  assumes free: "int (attrBytes evts) \<le> sint (eventAttributeDataFreeTier g)"
    and fits: "int (length evts) * uint (eventPerAttributeCost g) < 2 ^ 64"
  shows "\<exists>r. EventCosts g evts = Inr r
             \<and> uint r = int (length evts) * uint (eventPerAttributeCost g)"
proof (cases "evts = []")
  case True
  then show ?thesis by (simp add: EventCosts_def)
next
  case False
  have "sint (eventAttributeDataFreeTier g) < 2 ^ 63"
    using sint_lt [of "eventAttributeDataFreeTier g"] by simp
  then have "int (attrBytes evts) < 2 ^ 63" using free by (rule le_less_trans [rotated])
  then have bytes: "attrBytes evts < 2 ^ 63" by simp
  have sle: "sumStoredBytes 0 evts \<le>s eventAttributeDataFreeTier g"
    using free by (simp add: sumStoredBytes_eq word_sle_eq sint_of_nat_small [OF bytes])
  show ?thesis
  proof (cases "eventPerAttributeCost g = 0")
    case True
    then show ?thesis using False sle by (simp add: EventCosts_eq Let_def)
  next
    case nz: False
    then have "uint (eventPerAttributeCost g) \<noteq> 0" by (simp add: uint_0_iff)
    then have "1 \<le> uint (eventPerAttributeCost g)"
      using uint_ge_0 [of "eventPerAttributeCost g"] by linarith
    then have "int (length evts) * 1 \<le> int (length evts) * uint (eventPerAttributeCost g)"
      by (rule mult_left_mono) simp
    then have "int (length evts) < 2 ^ 64" using fits by linarith
    then have len: "length evts < 2 ^ 64" by simp
    have l: "uint (of_nat (length evts) :: u64) = int (length evts)"
      using len by (simp add: uint_of_nat_small)
    have lt: "uint (eventPerAttributeCost g) * int (length evts) < 2 ^ 64"
      using fits by (simp add: mult.commute)
    have ge: "0 \<le> uint (eventPerAttributeCost g) * int (length evts)" by simp
    have "uint (eventPerAttributeCost g) * uint (of_nat (length evts) :: u64) < 2 ^ LENGTH(64)"
      using lt l by simp
    then have "uint (eventPerAttributeCost g * of_nat (length evts))
            = uint (eventPerAttributeCost g) * uint (of_nat (length evts) :: u64)"
      by (simp only: uint_mult_lem)
    then show ?thesis
      using False sle l lt by (simp add: EventCosts_eq Let_def mult.commute)
  qed
qed

theorem EventCosts_free_tier_witness:
  "int (attrBytes [\<lparr>Key = ''k'', Value = ''v''\<rparr>, \<lparr>Key = ''a'', Value = ''bc''\<rparr>])
      \<le> sint (eventAttributeDataFreeTier DefaultGasRegister)
   \<and> int (length [\<lparr>Key = ''k'', Value = ''v''\<rparr>, \<lparr>Key = ''a'', Value = ''bc''\<rparr>])
        * uint (eventPerAttributeCost DefaultGasRegister) < 2 ^ 64
   \<and> EventCosts DefaultGasRegister [\<lparr>Key = ''k'', Value = ''v''\<rparr>, \<lparr>Key = ''a'', Value = ''bc''\<rparr>]
       = Inr 20"
  using EventCosts_free_tier
          [of "[\<lparr>Key = ''k'', Value = ''v''\<rparr>, \<lparr>Key = ''a'', Value = ''bc''\<rparr>]" DefaultGasRegister]
  by (simp add: attrBytes_simps register_defs EventCosts_eval)

section \<open>Port identifiers\<close>

subsection \<open>Bits of the constants\<close>

lemma bit_int_0x80: "bit (0x80 :: int) n \<longleftrightarrow> n = 7"
proof -
  have "(0x80 :: int) = 2 ^ 7" by simp
  then have "bit (0x80 :: int) n \<longleftrightarrow> bit ((2 :: int) ^ 7) n" by (simp only:)
  also have "\<dots> \<longleftrightarrow> n = 7" by (simp only: bit_exp_iff) auto
  finally show ?thesis .
qed

lemma bit_int_mask_consts:
  "bit (0x7f :: int) n \<longleftrightarrow> n < 7"
  "bit (0x3F :: int) n \<longleftrightarrow> n < 6"
  "bit (0xffffffff :: int) n \<longleftrightarrow> n < 32"
proof -
  have "(0x7f :: int) = mask 7" by (simp add: mask_eq_exp_minus_1)
  then have "bit (0x7f :: int) n \<longleftrightarrow> bit (mask 7 :: int) n" by (simp only:)
  also have "\<dots> \<longleftrightarrow> n < 7" by (simp only: bit_mask_iff) auto
  finally show "bit (0x7f :: int) n \<longleftrightarrow> n < 7" .
  have "(0x3F :: int) = mask 6" by (simp add: mask_eq_exp_minus_1)
  then have "bit (0x3F :: int) n \<longleftrightarrow> bit (mask 6 :: int) n" by (simp only:)
  also have "\<dots> \<longleftrightarrow> n < 6" by (simp only: bit_mask_iff) auto
  finally show "bit (0x3F :: int) n \<longleftrightarrow> n < 6" .
  have "(0xffffffff :: int) = mask 32" by (simp add: mask_eq_exp_minus_1)
  then have "bit (0xffffffff :: int) n \<longleftrightarrow> bit (mask 32 :: int) n" by (simp only:)
  also have "\<dots> \<longleftrightarrow> n < 32" by (simp only: bit_mask_iff) auto
  finally show "bit (0xffffffff :: int) n \<longleftrightarrow> n < 32" .
qed

lemmas bit_consts = bit_int_0x80 bit_int_mask_consts


lemma split7:
  "x OR push_bit s (ucast ((ucast (y :: u64) OR (0x80 :: u8)) AND 0x7f)) OR push_bit (s + 7) (drop_bit 7 y) 
     = (x :: u64) OR push_bit s y"
proof (rule bit_word_eqI)
  fix n
  assume "n < LENGTH(64)"
  have k: "7 + (n - (s + 7)) = n - s" if "s + 7 \<le> n" using that by simp
  show "bit (x OR push_bit s (ucast ((ucast y OR (0x80 :: u8)) AND 0x7f)) OR push_bit (s + 7) (drop_bit 7 y)) n
         = bit (x OR push_bit s y) n"
    by (cases "s + 7 \<le> n") (auto simp add: bit_simps bit_consts k)
qed

lemma cont_ge: "\<not> (ucast (y :: u64) OR (0x80 :: u8)) < 0x80"
proof -
  have "(0x80 :: u8) \<le> 0x80 OR ucast y" by (rule le_word_or2)
  then show ?thesis by (simp add: or.commute)
qed

lemma high_bits_unset:
  assumes "unat (w :: 'a::len word) < 2 ^ k" and "bit w n"
  shows "n < k"
proof (rule ccontr)
  assume "\<not> n < k"
  then have "(2::nat) ^ k \<le> 2 ^ n" by simp
  then have "unat w < 2 ^ n" using assms(1) by linarith
  then have "unat w div 2 ^ n = 0" by simp
  then have "\<not> bit (unat w) n" by (simp add: bit_iff_odd)
  then show False using assms(2) by (simp add: bit_unsigned_iff)
qed

lemma take_bit_small:
  assumes "unat (w :: 'a::len word) < 2 ^ k"
  shows "take_bit k w = w"
  by (rule bit_word_eqI) (auto simp add: bit_simps dest: high_bits_unset [OF assms])

lemma ucast_ucast_small:
  assumes "unat (y :: u64) < 2 ^ 8"
  shows "ucast (ucast y :: u8) = y"
proof -
  have "ucast (ucast y :: u8) = take_bit 8 y"
    by (rule bit_word_eqI) (auto simp add: bit_simps)
  then show ?thesis using take_bit_small [OF assms] by simp
qed


lemma unat_ucast_u8_small:
  assumes "unat (y :: u64) < 2 ^ 8"
  shows "unat (ucast y :: u8) = unat y"
  using assms by (simp add: unsigned_ucast_eq take_bit_nat_eq_self)

lemma PutUvarint_nonempty: "PutUvarint x \<noteq> []"
  by (subst PutUvarint.simps) simp

lemma Uvarint_loop_PutUvarint:
  assumes "i \<le> 9" and "unat y < 2 ^ (64 - 7 * i)"
  shows "Uvarint_loop x (7 * i) i (PutUvarint y @ rest)
           = (x OR push_bit (7 * i) y, int i + int (length (PutUvarint y)))"
  using assms
proof (induction y arbitrary: x i rule: PutUvarint.induct)
  case (1 y)
  show ?case
  proof (cases "0x80 \<le> y")
    case True
    then have ge: "2 ^ 7 \<le> unat y" by (simp add: word_le_nat_alt)
    have i8: "i \<le> 8"
    proof (rule ccontr)
      assume "\<not> i \<le> 8"
      then have "i = 9" using "1.prems"(1) by simp
      then have "unat y < 2 ^ 1" using "1.prems"(2) by simp
      then show False using ge by simp
    qed
    have e: "64 - 7 * i = 7 + (64 - 7 * Suc i)" using i8 by simp
    have "unat y < 2 ^ 7 * 2 ^ (64 - 7 * Suc i)"
      using "1.prems"(2) by (simp only: e power_add)
    then have "unat y div 2 ^ 7 < 2 ^ (64 - 7 * Suc i)"
      by (simp add: less_mult_imp_div_less mult.commute)
    then have small: "unat (drop_bit 7 y) < 2 ^ (64 - 7 * Suc i)"
      by (simp add: drop_bit_eq_div unat_div)
    have IH: "Uvarint_loop x' (7 * Suc i) (Suc i) (PutUvarint (drop_bit 7 y) @ rest)
           = (x' OR push_bit (7 * Suc i) (drop_bit 7 y),
              int (Suc i) + int (length (PutUvarint (drop_bit 7 y))))" for x'
      using "1.IH" [OF True, of "Suc i" x'] i8 small by simp
    have ne: "i \<noteq> MaxVarintLen64" using i8 by (simp add: MaxVarintLen64_def)
    have p: "PutUvarint y = (ucast y OR 0x80) # PutUvarint (drop_bit 7 y)"
      using True by (subst PutUvarint.simps) simp
    have s7: "7 * i + 7 = 7 * Suc i" by simp
    show ?thesis
      unfolding p
      using ne cont_ge [of y] IH split7 [of x "7 * i" y]
      by (simp add: s7 or.assoc)
  next
    case False
    then have lt: "unat y < 2 ^ 7" by (simp add: word_le_nat_alt not_le)
    then have lt8: "unat y < 2 ^ 8" by simp
    have p: "PutUvarint y = [ucast y]"
      using False by (subst PutUvarint.simps) simp
    have b: "unat (ucast y :: u8) = unat y" by (rule unat_ucast_u8_small [OF lt8])
    have blt: "(ucast y :: u8) < 0x80" using lt b by (simp add: word_less_nat_alt)
    have ne: "i \<noteq> MaxVarintLen64" using "1.prems"(1) by (simp add: MaxVarintLen64_def)
    have last: "\<not> (i = MaxVarintLen64 - 1 \<and> 1 < (ucast y :: u8))"
    proof
      assume a: "i = MaxVarintLen64 - 1 \<and> 1 < (ucast y :: u8)"
      then have "i = 9" by (simp add: MaxVarintLen64_def)
      then have "unat y < 2 ^ 1" using "1.prems"(2) by simp
      then have "unat (ucast y :: u8) \<le> 1" using b by simp
      moreover have "1 < unat (ucast y :: u8)" using a by (simp add: word_less_nat_alt)
      ultimately show False by simp
    qed
    show ?thesis
      unfolding p using ne blt last ucast_ucast_small [OF lt8] by simp
  qed
qed

lemma Uvarint_PutUvarint: "Uvarint (PutUvarint x) = (x, int (length (PutUvarint x)))"
proof -
  have "unat x < 2 ^ (64 - 7 * 0)" using unsigned_less [of x] by simp
  then show ?thesis
    using Uvarint_loop_PutUvarint [of 0 x 0 "[]"] by (simp add: Uvarint_def)
qed


lemma unpack_contractID:
  assumes "codeID \<le> 0xffffffff" and "instanceID \<le> (0xffffffff :: u64)"
  shows "drop_bit 32 (push_bit 32 codeID + instanceID) = codeID"
    and "(push_bit 32 codeID + instanceID) AND 0xffffffff = instanceID"
proof -
  have c: "unat codeID < 2 ^ 32" using assms(1) by (simp add: word_le_nat_alt)
  have i: "unat instanceID < 2 ^ 32" using assms(2) by (simp add: word_le_nat_alt)
  have "push_bit 32 codeID AND instanceID = 0"
    by (rule bit_word_eqI) (auto simp add: bit_simps dest: high_bits_unset [OF i])
  then have e: "push_bit 32 codeID + instanceID = push_bit 32 codeID OR instanceID"
    by (rule disjunctive_add_eq_or)
  show "drop_bit 32 (push_bit 32 codeID + instanceID) = codeID"
    unfolding e
    by (rule bit_word_eqI)
       (auto simp add: bit_simps dest: high_bits_unset [OF i] high_bits_unset [OF c])
  show "(push_bit 32 codeID + instanceID) AND 0xffffffff = instanceID"
    unfolding e
    by (rule bit_word_eqI)
       (auto simp add: bit_simps bit_consts dest: high_bits_unset [OF i])
qed

subsection \<open>Base64 without padding: decoding what was encoded\<close>

lemma bit_sextet: "bit (sextet v) n \<longleftrightarrow> n < 6 \<and> bit v n"
  by (auto simp add: sextet_def bit_simps bit_consts)

lemma bit_quantumVal:
  "bit (quantumVal a b c d) n \<longleftrightarrow>
     n < 64 \<and> ((18 \<le> n \<and> bit a (n - 18)) \<or> (12 \<le> n \<and> bit b (n - 12))
              \<or> (6 \<le> n \<and> bit c (n - 6)) \<or> bit d n)"
  unfolding quantumVal_def
  by (auto simp add: bit_simps dest: bit_imp_le_length)

lemma lt8_cases:
  assumes "n < (8 :: nat)"
  obtains "n = 0" | "n = 1" | "n = 2" | "n = 3" | "n = 4" | "n = 5" | "n = 6" | "n = 7"
  using assms by linarith

lemma quantum_byte0:
  "ucast (drop_bit 16 (quantumVal (sextet (drop_bit 18 v)) (sextet (drop_bit 12 v)) c d))
     = (ucast (drop_bit 16 v) :: u8)"
proof (rule bit_word_eqI)
  fix n
  assume "n < LENGTH(8)"
  then have "n < 8" by simp
  then show "bit (ucast (drop_bit 16 (quantumVal (sextet (drop_bit 18 v)) (sextet (drop_bit 12 v)) c d)) :: u8) n
        = bit (ucast (drop_bit 16 v) :: u8) n"
    by (cases n rule: lt8_cases)
       (auto simp add: bit_simps bit_quantumVal bit_sextet dest: bit_imp_le_length)
qed

lemma quantum_byte1:
  "ucast (drop_bit 8 (quantumVal a (sextet (drop_bit 12 v)) (sextet (drop_bit 6 v)) d))
     = (ucast (drop_bit 8 v) :: u8)"
proof (rule bit_word_eqI)
  fix n
  assume "n < LENGTH(8)"
  then have "n < 8" by simp
  then show "bit (ucast (drop_bit 8 (quantumVal a (sextet (drop_bit 12 v)) (sextet (drop_bit 6 v)) d)) :: u8) n
        = bit (ucast (drop_bit 8 v) :: u8) n"
    by (cases n rule: lt8_cases)
       (auto simp add: bit_simps bit_quantumVal bit_sextet dest: bit_imp_le_length)
qed

lemma quantum_byte2:
  "ucast (quantumVal a b (sextet (drop_bit 6 v)) (sextet v)) = (ucast v :: u8)"
proof (rule bit_word_eqI)
  fix n
  assume "n < LENGTH(8)"
  then have "n < 8" by simp
  then show "bit (ucast (quantumVal a b (sextet (drop_bit 6 v)) (sextet v)) :: u8) n
        = bit (ucast v :: u8) n"
    by (cases n rule: lt8_cases)
       (auto simp add: bit_simps bit_quantumVal bit_sextet dest: bit_imp_le_length)
qed

lemma val_bytes:
  fixes b0 b1 b2 :: u8
  shows "ucast (drop_bit 16 (push_bit 16 (ucast b0) OR push_bit 8 (ucast b1) OR ucast b2 :: u64)) = b0"
    and "ucast (drop_bit 8 (push_bit 16 (ucast b0) OR push_bit 8 (ucast b1) OR ucast b2 :: u64)) = b1"
    and "ucast (push_bit 16 (ucast b0) OR push_bit 8 (ucast b1) OR ucast b2 :: u64) = b2"
  by (rule bit_word_eqI; auto simp add: bit_simps dest: bit_imp_le_length)+



lemma distinct_encodeStd: "distinct encodeStd"
  by (simp add: encodeStd_def)

lemma length_encodeStd: "length encodeStd = 64"
  by (simp add: encodeStd_def)

lemma index_of_nth:
  assumes "distinct xs" and "i < length xs"
  shows "index_of (xs ! i) xs = Some i"
  using assms
proof (induction xs arbitrary: i)
  case Nil
  then show ?case by simp
next
  case (Cons x xs)
  show ?case
  proof (cases i)
    case 0
    then show ?thesis by simp
  next
    case (Suc j)
    then have "xs ! j \<in> set xs" using Cons.prems(2) by simp
    then have "xs ! j \<noteq> x" using Cons.prems(1) by auto
    then show ?thesis using Suc Cons by simp
  qed
qed

lemma unat_and_0x3F: "unat ((v :: u64) AND 0x3F) < 64"
proof -
  have "v AND 0x3F \<le> 0x3F" by (rule word_and_le1)
  then show ?thesis by (simp add: word_le_nat_alt)
qed

lemma decodeMap_encode: "decodeMap (encode v) = sextet v"
proof -
  have "index_of (encodeStd ! unat (v AND 0x3F)) encodeStd = Some (unat (v AND 0x3F))"
    by (rule index_of_nth [OF distinct_encodeStd]) (simp add: length_encodeStd unat_and_0x3F)
  then show ?thesis by (simp add: decodeMap_def encode_def sextet_def)
qed

lemma sextet_valid: "sextet v \<noteq> 0xFF"
proof -
  have "unat (sextet v) = unat (v AND 0x3F)"
    using unat_and_0x3F [of v] by (simp add: sextet_def unsigned_ucast_eq take_bit_nat_eq_self)
  then have "unat (sextet v) < 64" using unat_and_0x3F [of v] by simp
  then show ?thesis by auto
qed

lemma Decode_encode:
  "Decode dbuf (encode v # src) =
     (if length dbuf = 3 then
        (case Decode [] src of
           Inl err \<Rightarrow> Inl err
         | Inr rest \<Rightarrow> Inr (quantumBytes (dbuf @ [sextet v]) @ rest))
      else Decode (dbuf @ [sextet v]) src)"
  by (simp add: decodeMap_encode sextet_valid Let_def)

lemma sextet_0: "sextet 0 = 0"
  by (simp add: sextet_def)

lemma quantumBytes_4:
  "quantumBytes [sextet (drop_bit 18 v), sextet (drop_bit 12 v), sextet (drop_bit 6 v), sextet v]
     = [ucast (drop_bit 16 v), ucast (drop_bit 8 v), ucast v]"
  by (simp add: Let_def quantum_byte0 quantum_byte1 quantum_byte2)

lemma quantumBytes_3:
  "quantumBytes [sextet (drop_bit 18 v), sextet (drop_bit 12 v), sextet (drop_bit 6 v)]
     = [ucast (drop_bit 16 v), ucast (drop_bit 8 v)]"
  by (simp add: Let_def quantum_byte0 quantum_byte1)

lemma quantumBytes_2:
  "quantumBytes [sextet (drop_bit 18 v), sextet (drop_bit 12 v)] = [ucast (drop_bit 16 v)]"
  by (simp add: Let_def quantum_byte0)

lemma Decode_4:
  "Decode [] (encode (drop_bit 18 v) # encode (drop_bit 12 v) # encode (drop_bit 6 v) # encode v # src)
     = (case Decode [] src of
          Inl err \<Rightarrow> Inl err
        | Inr rest \<Rightarrow> Inr ([ucast (drop_bit 16 v), ucast (drop_bit 8 v), ucast v] @ rest))"
  by (simp only: Decode_encode quantumBytes_4 append_Nil append_Cons list.size) simp

lemma Decode_3:
  "Decode [] [encode (drop_bit 18 v), encode (drop_bit 12 v), encode (drop_bit 6 v)]
     = Inr [ucast (drop_bit 16 v), ucast (drop_bit 8 v)]"
  by (simp only: Decode_encode append_Nil append_Cons list.size)
     (simp only: Decode.simps quantumBytes_3, simp)

lemma Decode_2:
  "Decode [] [encode (drop_bit 18 v), encode (drop_bit 12 v)] = Inr [ucast (drop_bit 16 v)]"
  by (simp only: Decode_encode append_Nil append_Cons list.size)
     (simp only: Decode.simps quantumBytes_2, simp)

lemma Decode_EncodeToString: "Decode [] (EncodeToString src) = Inr src"
proof (induction src rule: EncodeToString.induct)
  case (1 b0 b1 b2 src)
  define val :: u64 where "val = push_bit 16 (ucast b0) OR push_bit 8 (ucast b1) OR ucast b2"
  have e: "EncodeToString (b0 # b1 # b2 # src)
             = encode (drop_bit 18 val) # encode (drop_bit 12 val) # encode (drop_bit 6 val)
                 # encode val # EncodeToString src"
    by (simp add: val_def Let_def)
  have b: "[ucast (drop_bit 16 val), ucast (drop_bit 8 val), ucast val] = [b0, b1, b2]"
    unfolding val_def by (simp only: val_bytes)
  show ?case
    unfolding e Decode_4 b using 1 by simp
next
  case (2 b0 b1)
  define val :: u64 where "val = push_bit 16 (ucast b0) OR push_bit 8 (ucast b1) OR ucast (0 :: u8)"
  have e: "EncodeToString [b0, b1]
             = [encode (drop_bit 18 val), encode (drop_bit 12 val), encode (drop_bit 6 val)]"
    by (simp add: val_def Let_def)
  have b: "[ucast (drop_bit 16 val), ucast (drop_bit 8 val)] = [b0, b1]"
    unfolding val_def by (simp only: val_bytes)
  show ?case
    unfolding e Decode_3 b by simp
next
  case (3 b0)
  define val :: u64
    where "val = push_bit 16 (ucast b0) OR push_bit 8 (ucast (0 :: u8)) OR ucast (0 :: u8)"
  have e: "EncodeToString [b0] = [encode (drop_bit 18 val), encode (drop_bit 12 val)]"
    by (simp add: val_def Let_def)
  have b: "[ucast (drop_bit 16 val)] = [b0]"
    unfolding val_def by (simp only: val_bytes)
  show ?case
    unfolding e Decode_2 b by simp
next
  case 4
  then show ?case by simp
qed

lemma DecodeString_EncodeToString: "DecodeString (EncodeToString src) = Inr src"
  by (simp add: DecodeString_def Decode_EncodeToString)

text \<open>
  C2. For every code and instance identifier of at most \<open>2 ^ 32 - 1\<close>, resolving the port
  derived from the pair succeeds with the contract of the code identifier \<open>value >> 32\<close> and
  the instance identifier \<open>value & 0xFFFFFFFF\<close> of the packed value
  \<open>codeID << 32 + instanceID\<close>, and these are the pair the port was derived from.
\<close>

theorem port_round_trip:
  assumes "codeID \<le> 0xffffffff" and "instanceID \<le> 0xffffffff"
  shows "ContractFromPortID contractAddress (PortIDForContract codeID instanceID)
           = Inr (contractAddress (drop_bit 32 (push_bit 32 codeID + instanceID))
                                  ((push_bit 32 codeID + instanceID) AND 0xffffffff))
       \<and> drop_bit 32 (push_bit 32 codeID + instanceID) = codeID
       \<and> (push_bit 32 codeID + instanceID) AND 0xffffffff = instanceID"
proof -
  let ?v = "push_bit 32 codeID + instanceID"
  let ?s = "EncodeToString (PutUvarint ?v)"
  have p: "HasPrefix (portIDPrefix @ ?s) portIDPrefix"
    by (simp add: HasPrefix_def)
  have n: "int (length (PutUvarint ?v)) \<noteq> 0"
    using PutUvarint_nonempty [of ?v] by simp
  have "ContractFromPortID contractAddress (portIDPrefix @ ?s)
          = Inr (contractAddress (drop_bit 32 ?v) (?v AND 0xffffffff))"
    unfolding ContractFromPortID_def
    using p n by (simp add: DecodeString_EncodeToString Uvarint_PutUvarint)
  then show ?thesis
    using unpack_contractID [OF assms] by (simp add: PortIDForContract_def Let_def)
qed

theorem port_round_trip_witness:
  "(1 :: u64) \<le> 0xffffffff \<and> (2 :: u64) \<le> 0xffffffff
   \<and> PortIDForContract 1 2 = ''wasmgoCAgBA''
   \<and> ContractFromPortID Pair ''wasmgoCAgBA'' = Inr (1 :: u64, 2 :: u64)"
proof -
  have s: "PortIDForContract 1 2 = ''wasmgoCAgBA''"
    by code_simp
  have "ContractFromPortID Pair (PortIDForContract 1 2) = Inr (1 :: u64, 2 :: u64)"
    using port_round_trip [of 1 2 Pair] by simp
  then show ?thesis using s by simp
qed

text \<open>
  C3. The claim is that \<open>ContractFromPortID\<close> fails on every port whose payload is not a
  variable-length unsigned integer, an overflowing one included. The port below has the
  prefix, its payload is base64 for nine bytes \<open>0xFF\<close> and a byte \<open>0x02\<close>, and \<open>Uvarint\<close>
  reports the overflow of 64 bits with the count \<open>-10\<close>. The test \<open>n == 0 && n <= 0\<close> lets
  the negative count pass, and the port resolves to the contract of code 0 and instance 0.
\<close>

theorem ContractFromPortID_overflow:
  "HasPrefix ''wasm////////////Ag'' portIDPrefix
   \<and> DecodeString ''////////////Ag'' = Inr [0xFF, 0xFF, 0xFF, 0xFF, 0xFF, 0xFF, 0xFF, 0xFF, 0xFF, 0x02]
   \<and> Uvarint [0xFF, 0xFF, 0xFF, 0xFF, 0xFF, 0xFF, 0xFF, 0xFF, 0xFF, 0x02] = (0, - 10)
   \<and> ContractFromPortID Pair ''wasm////////////Ag'' = Inr (0 :: u64, 0 :: u64)"
  by code_simp


section \<open>Binding a port twice\<close>

lemma PortIDForContract_1_2: "PortIDForContract 1 2 = ''wasmgoCAgBA''"
  by code_simp

lemma bindIbcPort_bound:
  assumes "hasPortKeeper k" and "bindIbcPort k ctx portID = Inr ctx'"
  shows "portID \<in> boundPorts ctx'" and "ownedBy ctx' (PortPath portID) \<noteq> None"
  using assms
  by (auto simp add: bindIbcPort_def BindPort_def ClaimCapability_def ScopedClaimCapability_def
           split: if_splits option.splits)

lemma bindIbcPort_twice:
  assumes "hasPortKeeper k" and "bindIbcPort k ctx portID = Inr ctx'"
  shows "bindIbcPort k ctx' portID = Inl CapabilityConflict"
  using bindIbcPort_bound(1) [OF assms] assms(1)
  by (simp add: bindIbcPort_def BindPort_def)

text \<open>
  C6. When a call of \<open>ensureIbcPort\<close> for a code and instance identifier succeeds, a second
  call for the same pair on the state the first one left succeeds too, returns the same
  port, and leaves the state as it is. With the port keeper set, the second call finds the
  capability by its name and so does not bind; binding unconditionally would not do, since
  \<open>bindIbcPort\<close> fails when it is called again after it succeeded for the same port.
\<close>

theorem ensureIbcPort_twice:
  assumes "ensureIbcPort k ctx codeID instanceID = (portID, Inr ctx')"
  shows "ensureIbcPort k ctx' codeID instanceID = (portID, Inr ctx')
       \<and> portID = PortIDForContract codeID instanceID
       \<and> (hasPortKeeper k \<longrightarrow> GetCapability ctx' (PortPath portID) \<noteq> None)
       \<and> (\<forall>s s'. hasPortKeeper k \<and> bindIbcPort k s portID = Inr s'
                  \<longrightarrow> bindIbcPort k s' portID = Inl CapabilityConflict)"
proof -
  have id: "portID = PortIDForContract codeID instanceID"
    using assms by (auto simp add: ensureIbcPort_def Let_def split: if_splits option.splits)
  have own: "GetCapability ctx' (PortPath portID) \<noteq> None" if "hasPortKeeper k"
  proof (cases "GetCapability ctx (PortPath portID)")
    case None
    then have "bindIbcPort k ctx portID = Inr ctx'"
      using assms that id by (simp add: ensureIbcPort_def Let_def)
    then show ?thesis
      using bindIbcPort_bound(2) [OF that] by (simp add: GetCapability_def)
  next
    case (Some cap)
    then have "ctx' = ctx"
      using assms that id by (simp add: ensureIbcPort_def Let_def)
    then show ?thesis using Some by simp
  qed
  have again: "ensureIbcPort k ctx' codeID instanceID = (portID, Inr ctx')"
  proof (cases "hasPortKeeper k")
    case True
    then show ?thesis
      using own id by (auto simp add: ensureIbcPort_def Let_def)
  next
    case False
    then show ?thesis
      using assms by (auto simp add: ensureIbcPort_def)
  qed
  show ?thesis
    using id own again bindIbcPort_twice by blast
qed

theorem ensureIbcPort_twice_witness:
  "ensureIbcPort ibcKeeper freshAuthority 1 2
     = (''wasmgoCAgBA'',
        Inr \<lparr> boundPorts = {''wasmgoCAgBA''}, nextCapability = 1,
              ownedBy = [''ports/wasmgoCAgBA'' \<mapsto> 0] \<rparr>)
   \<and> ensureIbcPort ibcKeeper
        \<lparr> boundPorts = {''wasmgoCAgBA''}, nextCapability = 1,
          ownedBy = [''ports/wasmgoCAgBA'' \<mapsto> 0] \<rparr> 1 2
     = (''wasmgoCAgBA'',
        Inr \<lparr> boundPorts = {''wasmgoCAgBA''}, nextCapability = 1,
              ownedBy = [''ports/wasmgoCAgBA'' \<mapsto> 0] \<rparr>)
   \<and> bindIbcPort ibcKeeper
        \<lparr> boundPorts = {''wasmgoCAgBA''}, nextCapability = 1,
          ownedBy = [''ports/wasmgoCAgBA'' \<mapsto> 0] \<rparr> ''wasmgoCAgBA''
     = Inl CapabilityConflict"
proof -
  let ?ctx = "\<lparr> boundPorts = {''wasmgoCAgBA''}, nextCapability = 1,
                ownedBy = [''ports/wasmgoCAgBA'' \<mapsto> 0] \<rparr>"
  have first: "ensureIbcPort ibcKeeper freshAuthority 1 2 = (''wasmgoCAgBA'', Inr ?ctx)"
    by (simp add: ensureIbcPort_def Let_def PortIDForContract_1_2 ibcKeeper_def freshAuthority_def
          GetCapability_def bindIbcPort_def BindPort_def ClaimCapability_def
          ScopedClaimCapability_def PortPath_def)
  have b: "bindIbcPort ibcKeeper freshAuthority ''wasmgoCAgBA'' = Inr ?ctx"
    by (simp add: ibcKeeper_def freshAuthority_def
          bindIbcPort_def BindPort_def ClaimCapability_def
          ScopedClaimCapability_def PortPath_def)
  have k: "hasPortKeeper ibcKeeper" by (simp add: ibcKeeper_def)
  show ?thesis
    using ensureIbcPort_twice [OF first] first k b by blast
qed


section \<open>The ping-pong contract\<close>

subsection \<open>Counters in the store\<close>

lemma ucast_ucast_u8: "ucast (ucast (x :: u64) :: u8) = (take_bit 8 x :: u64)"
  by (rule bit_word_eqI) (auto simp add: bit_simps)

lemma split_low_byte: "take_bit 8 x OR push_bit 8 (drop_bit 8 x) = (x :: u64)"
proof (rule bit_word_eqI)
  fix n
  assume "n < LENGTH(64)"
  show "bit (take_bit 8 x OR push_bit 8 (drop_bit 8 x)) n = bit x n"
    by (cases "8 \<le> n") (auto simp add: bit_simps dest: bit_imp_le_length)
qed

lemma top_byte: "take_bit 8 (drop_bit 56 x) = drop_bit 56 (x :: u64)"
proof (rule bit_word_eqI)
  fix n
  assume "n < LENGTH(64)"
  have "n < 8" if "bit x (56 + n)"
    using bit_imp_le_length [OF that] by simp
  then show "bit (take_bit 8 (drop_bit 56 x)) n = bit (drop_bit 56 x) n"
    by (auto simp add: bit_take_bit_iff bit_drop_bit_eq add.commute)
qed

lemma join_bytes:
  "take_bit 8 i OR push_bit 8 (take_bit 8 (drop_bit 8 i))
     OR push_bit 16 (take_bit 8 (drop_bit 16 i))
     OR push_bit 24 (take_bit 8 (drop_bit 24 i))
     OR push_bit 32 (take_bit 8 (drop_bit 32 i))
     OR push_bit 40 (take_bit 8 (drop_bit 40 i))
     OR push_bit 48 (take_bit 8 (drop_bit 48 i))
     OR push_bit 56 (take_bit 8 (drop_bit 56 i)) = (i :: u64)"
proof -
  have s: "push_bit k (take_bit 8 (drop_bit k i)) OR push_bit (k + 8) (drop_bit (k + 8) i)
             = push_bit k (drop_bit k i)" for k
  proof -
    have "push_bit k (take_bit 8 (drop_bit k i) OR push_bit 8 (drop_bit 8 (drop_bit k i)))
            = push_bit k (drop_bit k i)"
      by (simp only: split_low_byte)
    then show ?thesis
      by (simp only: push_bit_or push_bit_push_bit drop_bit_drop_bit add.commute)
  qed
  have "push_bit 48 (take_bit 8 (drop_bit 48 i)) OR push_bit 56 (take_bit 8 (drop_bit 56 i))
          = push_bit 48 (drop_bit 48 i)"
    using s [of 48] by (simp add: top_byte)
  then have "push_bit 40 (take_bit 8 (drop_bit 40 i))
     OR push_bit 48 (take_bit 8 (drop_bit 48 i))
     OR push_bit 56 (take_bit 8 (drop_bit 56 i)) = push_bit 40 (drop_bit 40 i)"
    using s [of 40] by (simp add: or.assoc)
  then have "push_bit 32 (take_bit 8 (drop_bit 32 i))
     OR push_bit 40 (take_bit 8 (drop_bit 40 i))
     OR push_bit 48 (take_bit 8 (drop_bit 48 i))
     OR push_bit 56 (take_bit 8 (drop_bit 56 i)) = push_bit 32 (drop_bit 32 i)"
    using s [of 32] by (simp add: or.assoc)
  then have "push_bit 24 (take_bit 8 (drop_bit 24 i))
     OR push_bit 32 (take_bit 8 (drop_bit 32 i))
     OR push_bit 40 (take_bit 8 (drop_bit 40 i))
     OR push_bit 48 (take_bit 8 (drop_bit 48 i))
     OR push_bit 56 (take_bit 8 (drop_bit 56 i)) = push_bit 24 (drop_bit 24 i)"
    using s [of 24] by (simp add: or.assoc)
  then have "push_bit 16 (take_bit 8 (drop_bit 16 i))
     OR push_bit 24 (take_bit 8 (drop_bit 24 i))
     OR push_bit 32 (take_bit 8 (drop_bit 32 i))
     OR push_bit 40 (take_bit 8 (drop_bit 40 i))
     OR push_bit 48 (take_bit 8 (drop_bit 48 i))
     OR push_bit 56 (take_bit 8 (drop_bit 56 i)) = push_bit 16 (drop_bit 16 i)"
    using s [of 16] by (simp add: or.assoc)
  then have "push_bit 8 (take_bit 8 (drop_bit 8 i))
     OR push_bit 16 (take_bit 8 (drop_bit 16 i))
     OR push_bit 24 (take_bit 8 (drop_bit 24 i))
     OR push_bit 32 (take_bit 8 (drop_bit 32 i))
     OR push_bit 40 (take_bit 8 (drop_bit 40 i))
     OR push_bit 48 (take_bit 8 (drop_bit 48 i))
     OR push_bit 56 (take_bit 8 (drop_bit 56 i)) = push_bit 8 (drop_bit 8 i)"
    using s [of 8] by (simp add: or.assoc)
  then show ?thesis
    using split_low_byte [of i] by (simp add: or.assoc)
qed

lemma BigEndian_round_trip: "BigEndianToUint64 (Uint64ToBigEndian i) = Inr i"
  using join_bytes [of i]
  by (simp add: BigEndianToUint64_def Uint64ToBigEndian_def ucast_ucast_u8)


end
